theory Spec2Isabelle
  imports Complex_Main "HOL-Library.Monad_Syntax"
begin

section \<open>Numbers (lib/utils/azure_queues.ts)\<close>

text \<open>
  A JavaScript \<open>number\<close> is an IEEE 754 binary64 value. A finite one is given by its real
  value; the result of an arithmetic operation is the exact result rounded to the nearest
  double, ties to even, and can be an infinity or NaN. The sign of a zero is not
  modelled.

  The arguments of the functions below (the retry count, the two bounds, the
  \<open>dequeueCount\<close> of a message) are finite numbers and have type \<open>number\<close>; NaN and the
  infinities as arguments are outside the model. What the delay policy computes has type
  \<open>js_number\<close>.
\<close>

type_synonym number = real

datatype js_number = Finite real | PosInfinity | NegInfinity | NaN

text \<open>
  Rounding to binary64. The doubles around a nonzero \<open>x\<close> with \<open>2^e \<le> |x| < 2^(e+1)\<close>
  are the multiples of \<open>2^(e - 52)\<close>, and below \<open>2^(-1022)\<close> (the subnormal range) the
  multiples of \<open>2^(-1074)\<close>; \<open>x\<close> is rounded to the nearest multiple, a tie to the even
  one; a result of magnitude \<open>2^1024\<close> or more is an infinity.
\<close>

definition round_half_even :: "real \<Rightarrow> int" where
  "round_half_even y =
     (let f = \<lfloor>y\<rfloor>; d = y - of_int f
      in if d < 1 / 2 then f else if 1 / 2 < d then f + 1 else if even f then f else f + 1)"

definition ulp_exponent :: "real \<Rightarrow> int" where
  "ulp_exponent x = max \<lfloor>log 2 \<bar>x\<bar>\<rfloor> (- 1022) - 52"

definition to_double :: "real \<Rightarrow> js_number" where
  "to_double x =
     (if x = 0 then Finite 0
      else let u = 2 powr of_int (ulp_exponent x);
               r = u * of_int (round_half_even (x / u))
           in if 2 ^ 1024 \<le> r then PosInfinity
              else if r \<le> - (2 ^ 1024) then NegInfinity
              else Finite r)"

text \<open>
  The operations of the expression \<open>Math.ceil((minBackoff * Math.pow(2, nr)) / 1000)\<close>,
  in the shapes the source uses them: the power of 2 with a finite exponent, the product
  of a finite number with a result, the quotient of a result by the literal 1000, and
  \<open>Math.ceil\<close>. For an integer exponent the power of 2 is a double, zero (below
  \<open>2^(-1074)\<close>) or infinite (from \<open>2^1024\<close>); for another exponent \<open>Math.pow\<close> is taken
  correctly rounded.
\<close>

definition Math_pow_2 :: "real \<Rightarrow> js_number" where
  "Math_pow_2 nr = to_double (2 powr nr)"

fun js_mult_finite :: "real \<Rightarrow> js_number \<Rightarrow> js_number" where
  "js_mult_finite a (Finite b) = to_double (a * b)"
| "js_mult_finite a PosInfinity =
     (if a = 0 then NaN else if 0 < a then PosInfinity else NegInfinity)"
| "js_mult_finite a NegInfinity =
     (if a = 0 then NaN else if 0 < a then NegInfinity else PosInfinity)"
| "js_mult_finite a NaN = NaN"

fun js_div_1000 :: "js_number \<Rightarrow> js_number" where
  "js_div_1000 (Finite a) = to_double (a / 1000)"
| "js_div_1000 PosInfinity = PosInfinity"
| "js_div_1000 NegInfinity = NegInfinity"
| "js_div_1000 NaN = NaN"

fun Math_ceil :: "js_number \<Rightarrow> js_number" where
  "Math_ceil (Finite a) = Finite (of_int \<lceil>a\<rceil>)"
| "Math_ceil PosInfinity = PosInfinity"
| "Math_ceil NegInfinity = NegInfinity"
| "Math_ceil NaN = NaN"

section \<open>The delay policy\<close>

definition MAX_BACKOFF_MS :: number where
  "MAX_BACKOFF_MS = 7 * 24 * 3600 * 1000"

definition MIN_BACKOFF_MS :: number where
  "MIN_BACKOFF_MS = 285"

text \<open>
  \<open>Math.floor(Math.log2(MAX_BACKOFF_MS / MIN_BACKOFF_MS))\<close>: the quotient is about
  2122105.26 and its logarithm about 21.017, far from an integer, so that the rounding of
  the quotient and of \<open>Math.log2\<close> does not change the floor.
\<close>

definition MAX_RETRIES :: number where
  "MAX_RETRIES = of_int \<lfloor>log 2 (MAX_BACKOFF_MS / MIN_BACKOFF_MS)\<rfloor>"

text \<open>fp-ts \<open>Option.filter\<close>; \<open>Option.map\<close> is \<^const>\<open>map_option\<close>.\<close>

definition option_filter :: "('a \<Rightarrow> bool) \<Rightarrow> 'a option \<Rightarrow> 'a option" where
  "option_filter p x = (case x of None \<Rightarrow> None | Some a \<Rightarrow> if p a then Some a else None)"

text \<open>
  \<open>getDelaySecForRetries(retries, maxRetries = MAX_RETRIES, minBackoff = MIN_BACKOFF_MS)\<close>:
  the three-argument function, and the call with both defaults.
\<close>

definition getDelaySecForRetries :: "number \<Rightarrow> number \<Rightarrow> number \<Rightarrow> js_number option" where
  "getDelaySecForRetries retries maxRetries minBackoff =
     map_option (\<lambda>nr. Math_ceil (js_div_1000 (js_mult_finite minBackoff (Math_pow_2 nr))))
       (option_filter (\<lambda>nr. nr \<le> maxRetries) (Some retries))"

definition getDelaySecForRetries_default :: "number \<Rightarrow> js_number option" where
  "getDelaySecForRetries_default retries =
     getDelaySecForRetries retries MAX_RETRIES MIN_BACKOFF_MS"

section \<open>Errors (imported from io-functions-commons/dist/src/utils/errors)\<close>

text \<open>
  Modelled from the spec: \<open>RuntimeError\<close>, \<open>TransientError\<close>, \<open>isTransientError\<close> and
  \<open>toRuntimeError\<close> are imported by azure_queues.ts from a package that is not under
  src/. The spec gives the failure as a tagged value carrying a message, classified
  transient or not; the source's parameter type is \<open>Error | RuntimeError\<close>. A runtime
  error is a kind tag with a message, \<open>TransientError(m)\<close> builds one tagged transient,
  \<open>isTransientError\<close> tests the tag, and \<open>toRuntimeError\<close> leaves a runtime error as
  it is and wraps a plain \<open>Error\<close> as an unknown (hence not transient) one.
\<close>

datatype ErrorTypes = TransientErrorKind | PermanentErrorKind | UnknownErrorKind

record RuntimeError =
  kind :: ErrorTypes
  message :: string

datatype error_value = Error string | OfRuntimeError RuntimeError

definition TransientError :: "string \<Rightarrow> RuntimeError" where
  "TransientError m = \<lparr>kind = TransientErrorKind, message = m\<rparr>"

definition PermanentError :: "string \<Rightarrow> RuntimeError" where
  "PermanentError m = \<lparr>kind = PermanentErrorKind, message = m\<rparr>"

definition UnknownError :: "string \<Rightarrow> RuntimeError" where
  "UnknownError m = \<lparr>kind = UnknownErrorKind, message = m\<rparr>"

definition isTransientError :: "RuntimeError \<Rightarrow> bool" where
  "isTransientError e = (kind e = TransientErrorKind)"

fun toRuntimeError :: "error_value \<Rightarrow> RuntimeError" where
  "toRuntimeError (OfRuntimeError e) = e"
| "toRuntimeError (Error m) = UnknownError m"

section \<open>The queue message and its codec\<close>

text \<open>
  \<open>Context["bindings"]\<close> is a dictionary of arbitrary values. Of a value only its being a
  number, a string, \<open>undefined\<close> or something else matters to the codec. The field
  \<open>id\<close> of the message is written \<open>id'\<close>, as \<open>id\<close> is the identity function of HOL.
\<close>

datatype js_value = JsNumber number | JsString string | JsUndefined | JsOther

type_synonym bindings = "string \<rightharpoonup> js_value"

record QueueMessage =
  dequeueCount :: number
  id' :: string
  popReceipt :: string
  expirationTime :: "string option"
  insertionTime :: "string option"
  messageId :: "string option"
  messageText :: "string option"
  nextVisibleTime :: "string option"
  queue :: "string option"
  queueTrigger :: "string option"
  timeNextVisible :: "string option"

text \<open>
  One property of \<open>t.interface\<close> (\<open>t.number\<close>, \<open>t.string\<close>: the key must hold such a
  value) and of \<open>t.partial\<close> (the key may be absent or \<open>undefined\<close>, otherwise it must
  hold a string). \<open>None\<close> is a validation failure.
\<close>

definition number_prop :: "bindings \<Rightarrow> string \<Rightarrow> number option" where
  "number_prop u k = (case u k of Some (JsNumber n) \<Rightarrow> Some n | _ \<Rightarrow> None)"

definition string_prop :: "bindings \<Rightarrow> string \<Rightarrow> string option" where
  "string_prop u k = (case u k of Some (JsString s) \<Rightarrow> Some s | _ \<Rightarrow> None)"

definition partial_string_prop :: "bindings \<Rightarrow> string \<Rightarrow> string option option" where
  "partial_string_prop u k =
     (case u k of
        None \<Rightarrow> Some None
      | Some JsUndefined \<Rightarrow> Some None
      | Some (JsString s) \<Rightarrow> Some (Some s)
      | Some _ \<Rightarrow> None)"

text \<open>The keys whose validation fails: what the validation's \<open>Left\<close> carries.\<close>

definition validation_errors :: "bindings \<Rightarrow> string list" where
  "validation_errors u =
     (if number_prop u ''dequeueCount'' = None then [''dequeueCount''] else []) @
     filter (\<lambda>k. string_prop u k = None) [''id'', ''popReceipt''] @
     filter (\<lambda>k. partial_string_prop u k = None)
       [''expirationTime'', ''insertionTime'', ''messageId'', ''messageText'',
        ''nextVisibleTime'', ''queue'', ''queueTrigger'', ''timeNextVisible'']"

definition QueueMessage_decode :: "bindings \<Rightarrow> string list + QueueMessage" where
  "QueueMessage_decode u =
     (case do {
        dc \<leftarrow> number_prop u ''dequeueCount'';
        i \<leftarrow> string_prop u ''id'';
        pr \<leftarrow> string_prop u ''popReceipt'';
        et \<leftarrow> partial_string_prop u ''expirationTime'';
        it \<leftarrow> partial_string_prop u ''insertionTime'';
        mi \<leftarrow> partial_string_prop u ''messageId'';
        mt \<leftarrow> partial_string_prop u ''messageText'';
        nv \<leftarrow> partial_string_prop u ''nextVisibleTime'';
        q \<leftarrow> partial_string_prop u ''queue'';
        qt \<leftarrow> partial_string_prop u ''queueTrigger'';
        tv \<leftarrow> partial_string_prop u ''timeNextVisible'';
        Some \<lparr>dequeueCount = dc, id' = i, popReceipt = pr, expirationTime = et,
              insertionTime = it, messageId = mi, messageText = mt,
              nextVisibleTime = nv, queue = q, queueTrigger = qt,
              timeNextVisible = tv\<rparr>
      } of
        None \<Rightarrow> Inl (validation_errors u)
      | Some queueMessage \<Rightarrow> Inr queueMessage)"

section \<open>Effects: promises, the transport, the callbacks, the log\<close>

text \<open>
  A settled promise either resolves with a value or rejects with a reason. A function
  with effects returns its promise together with the trace of the effects it performed,
  in order. The transport and the callbacks are taken to settle: a promise that stays
  pending, and a callback that throws before it returns its promise, are outside the
  model.
\<close>

datatype 'a promise = Resolved 'a | Rejected error_value

text \<open>
  A log message is the sequence of the pieces of its template literal; a number is kept
  as a number, the validation report as the failing keys, a logged rejection reason as
  the value.
\<close>

datatype log_part = Str string | Num js_number | Report "string list" | Val error_value

datatype event =
    Enter_handleQueueProcessingFailure error_value
  | winston_error "log_part list"
  | winston_warn "log_part list"
  | winston_debug "log_part list"
  | Call_updateMessage string string string js_number
  | Call_onTransientError RuntimeError
  | Call_onPermanentError RuntimeError

text \<open>
  \<open>queueService.updateMessage(queueName, id, popReceipt, visibilityTimeout, callback)\<close>
  invokes its callback once, with an error or without: the service is the function
  giving the message of the error reported, if any.
\<close>

type_synonym QueueService = "string \<Rightarrow> string \<Rightarrow> string \<Rightarrow> js_number \<Rightarrow> string option"

text \<open>
  \<open>(error: RuntimeError) => Promise<Either<RuntimeError, {}>>\<close>: \<open>Left\<close> is \<open>Inl\<close>,
  \<open>Right\<close> is \<open>Inr\<close>. A callback is given by the settlement of the promise it returns
  for its argument; one invocation of \<open>handleQueueProcessingFailure\<close> calls each
  callback at most once.
\<close>

type_synonym callback = "RuntimeError \<Rightarrow> (RuntimeError + unit) promise"

definition undefined_as_empty :: "string option \<Rightarrow> log_part" where
  "undefined_as_empty x = (case x of None \<Rightarrow> Str [] | Some s \<Rightarrow> Str s)"

definition queueMessageToString :: "QueueMessage \<Rightarrow> log_part list" where
  "queueMessageToString queueMessage =
     [Str ''queueTrigger = '', undefined_as_empty (queueTrigger queueMessage),
      Str ''; expirationTime = '', undefined_as_empty (expirationTime queueMessage),
      Str ''; insertionTime = '', undefined_as_empty (insertionTime queueMessage),
      Str ''; nextVisibleTime = '', undefined_as_empty (nextVisibleTime queueMessage),
      Str ''; id = '', Str (id' queueMessage),
      Str ''; popReceipt = '', Str (popReceipt queueMessage),
      Str ''; dequeueCount = '', Num (Finite (dequeueCount queueMessage))]"

section \<open>updateMessageVisibilityTimeout\<close>

definition updateMessageVisibilityTimeout ::
  "QueueService \<Rightarrow> string \<Rightarrow> bindings \<Rightarrow> bool promise \<times> event list" where
  "updateMessageVisibilityTimeout queueService queueName queueMessageBindings =
     (case QueueMessage_decode queueMessageBindings of
        Inl errors \<Rightarrow>
          (Rejected (Error ''INVALID_QUEUE_MESSAGE_IN_BINDINGS''),
           [winston_error [Str ''Unable to decode queue message from bindings: '',
                           Report errors]])
      | Inr queueMessage \<Rightarrow>
          (let entry =
                 winston_debug
                   ([Str ''updateMessageVisibilityTimeout|Retry to handle message '',
                     Str queueName, Str '':''] @ queueMessageToString queueMessage);
               numberOfRetries = dequeueCount queueMessage
           in case getDelaySecForRetries_default numberOfRetries of
                Some visibilityTimeoutSec \<Rightarrow>
                  (Resolved True,
                   [entry,
                    Call_updateMessage queueName (id' queueMessage) (popReceipt queueMessage)
                      visibilityTimeoutSec] @
                   (case queueService queueName (id' queueMessage) (popReceipt queueMessage)
                           visibilityTimeoutSec of
                      Some err_message \<Rightarrow>
                        [winston_error [Str ''updateMessageVisibilityTimeout|Error|'',
                                        Str err_message]]
                    | None \<Rightarrow> []) @
                   [winston_debug
                      [Str ''updateMessageVisibilityTimeout|retry='', Num (Finite numberOfRetries),
                       Str ''|timeout='', Num visibilityTimeoutSec,
                       Str ''|queueMessageId='', Str (id' queueMessage)]])
              | None \<Rightarrow>
                  (Resolved False,
                   [entry,
                    winston_debug
                      [Str ''updateMessageVisibilityTimeout|Maximum number of retries reached|retries='',
                       Num (Finite numberOfRetries), Str ''|'', Str (id' queueMessage)]])))"

section \<open>handleQueueProcessingFailure\<close>

text \<open>
  The first event of an invocation, \<open>Enter_handleQueueProcessingFailure\<close>, is not an
  effect of the source: it marks the entry into the function, so that the invocations
  within one call can be counted. The recursive call is reached only on an error that is
  not transient, and is made on a transient one: that is the termination argument.
\<close>

function handleQueueProcessingFailure ::
  "QueueService \<Rightarrow> bindings \<Rightarrow> string \<Rightarrow> callback \<Rightarrow> callback \<Rightarrow> error_value
     \<Rightarrow> unit promise \<times> event list" where
  "handleQueueProcessingFailure queueService queueMessageBindings queueName
       onTransientError onPermanentError error =
     (let runtimeError = toRuntimeError error in
      if isTransientError runtimeError then
        (let t0 = [Enter_handleQueueProcessingFailure error,
                   winston_warn [Str ''Transient error|'', Str queueName, Str ''|'',
                                 Str (message runtimeError)]]
         in case updateMessageVisibilityTimeout queueService queueName queueMessageBindings of
              (Rejected reason, t1) \<Rightarrow> (Rejected reason, t0 @ t1)
            | (Resolved shouldTriggerARetry, t1) \<Rightarrow>
                (let t2 = Call_onTransientError runtimeError #
                          (case onTransientError runtimeError of
                             Resolved (Inl err) \<Rightarrow>
                               [winston_warn [Str ''Transient error (onTransientError)|'',
                                              Str queueName, Str ''|'', Str (message err)]]
                           | Resolved (Inr _) \<Rightarrow> []
                           | Rejected reason \<Rightarrow> [winston_error [Val reason]])
                 in if shouldTriggerARetry then
                      (Rejected (Error (''Retry|'' @ queueName @ ''|'' @ message runtimeError)),
                       t0 @ t1 @ t2)
                    else
                      (Resolved (),
                       t0 @ t1 @ t2 @
                       [winston_error [Str ''Maximum number of retries reached, stop processing|'',
                                       Str queueName, Str ''|'', Str (message runtimeError)]])))
      else
        (let t0 = [Enter_handleQueueProcessingFailure error,
                   winston_error [Str ''Permanent error|'', Str queueName, Str ''|'',
                                  Str (message runtimeError)],
                   Call_onPermanentError runtimeError]
         in case onPermanentError runtimeError of
              Rejected reason \<Rightarrow> (Rejected reason, t0)
            | Resolved (Inl callbackError) \<Rightarrow>
                (case handleQueueProcessingFailure queueService queueMessageBindings queueName
                        onTransientError onPermanentError
                        (OfRuntimeError (TransientError (message callbackError))) of
                   (outcome, t1) \<Rightarrow> (outcome, t0 @ t1))
            | Resolved (Inr _) \<Rightarrow> (Resolved (), t0)))"
  by pat_completeness auto
termination
  by (relation "measure (\<lambda>(queueService, queueMessageBindings, queueName, onTransientError,
                            onPermanentError, error).
                   if isTransientError (toRuntimeError error) then 0 else 1)")
     (auto simp: isTransientError_def TransientError_def)

section \<open>Reading a trace\<close>

fun is_Enter :: "event \<Rightarrow> bool" where
  "is_Enter (Enter_handleQueueProcessingFailure _) = True"
| "is_Enter _ = False"

fun is_Call_updateMessage :: "event \<Rightarrow> bool" where
  "is_Call_updateMessage (Call_updateMessage _ _ _ _) = True"
| "is_Call_updateMessage _ = False"

fun is_Call_onTransientError :: "event \<Rightarrow> bool" where
  "is_Call_onTransientError (Call_onTransientError _) = True"
| "is_Call_onTransientError _ = False"

fun is_Call_onPermanentError :: "event \<Rightarrow> bool" where
  "is_Call_onPermanentError (Call_onPermanentError _) = True"
| "is_Call_onPermanentError _ = False"

definition occurrences :: "(event \<Rightarrow> bool) \<Rightarrow> event list \<Rightarrow> nat" where
  "occurrences p t = length (filter p t)"

section \<open>Scenario inputs\<close>

text \<open>
  Bindings as a queue trigger provides them, with the three required properties and a
  given \<open>dequeueCount\<close>, and the message they decode to.
\<close>

definition example_bindings :: "number \<Rightarrow> bindings" where
  "example_bindings dc =
     [''dequeueCount'' \<mapsto> JsNumber dc, ''id'' \<mapsto> JsString ''m1'',
      ''popReceipt'' \<mapsto> JsString ''r1'']"

definition example_message :: "number \<Rightarrow> QueueMessage" where
  "example_message dc =
     \<lparr>dequeueCount = dc, id' = ''m1'', popReceipt = ''r1'', expirationTime = None,
      insertionTime = None, messageId = None, messageText = None,
      nextVisibleTime = None, queue = None, queueTrigger = None,
      timeNextVisible = None\<rparr>"

text \<open>A transport that succeeds and one that reports an error; callbacks that succeed,
  fail with a \<open>Left\<close>, and reject.\<close>

definition transport_ok :: QueueService where
  "transport_ok qn msgId receipt visibilityTimeout = None"

definition transport_failing :: QueueService where
  "transport_failing qn msgId receipt visibilityTimeout = Some ''service unavailable''"

definition callback_ok :: callback where
  "callback_ok e = Resolved (Inr ())"

definition callback_left :: callback where
  "callback_left e = Resolved (Inl (PermanentError ''cleanup failed''))"

definition callback_rejecting :: callback where
  "callback_rejecting e = Rejected (Error ''hook crashed'')"

definition bindings_without_popReceipt :: bindings where
  "bindings_without_popReceipt =
     [''dequeueCount'' \<mapsto> JsNumber 1, ''id'' \<mapsto> JsString ''m1'']"

section \<open>Rounding to a double\<close>

lemma floor_log2_eq:
  fixes k :: int
  assumes "2 powr of_int k \<le> x" "x < 2 powr of_int (k + 1)"
  shows "\<lfloor>log 2 x\<rfloor> = k"
proof -
  have pos: "0 < x" using assms(1) powr_gt_zero [of 2 "of_int k"] by linarith
  have lo: "of_int k \<le> log 2 x" using assms(1) pos by (simp add: le_log_iff)
  have hi: "log 2 x < of_int (k + 1)" using assms(2) pos by (simp add: log_less_iff)
  show ?thesis using lo hi by (simp add: floor_eq_iff)
qed

lemma round_half_even_of_int: "round_half_even (of_int k) = k"
  by (simp add: round_half_even_def)

lemma round_half_even_error: "\<bar>of_int (round_half_even y) - y\<bar> \<le> 1 / 2"
proof -
  have "of_int \<lfloor>y\<rfloor> \<le> y" "y < of_int \<lfloor>y\<rfloor> + 1" by linarith+
  then show ?thesis
    by (auto simp: round_half_even_def Let_def)
qed

lemma to_double_of_int:
  assumes "\<bar>k\<bar> < 2 ^ 53"
  shows "to_double (of_int k) = Finite (of_int k)"
proof (cases "k = 0")
  case True
  then show ?thesis by (simp add: to_double_def)
next
  case False
  let ?x = "of_int k :: real"
  let ?e = "\<lfloor>log 2 \<bar>?x\<bar>\<rfloor>"
  have one: "1 \<le> \<bar>?x\<bar>"
  proof -
    have "1 \<le> \<bar>k\<bar>" using False by simp
    then have "(1::real) \<le> of_int \<bar>k\<bar>" by (simp only: of_int_1_le_iff)
    then show ?thesis by simp
  qed
  have lt: "\<bar>?x\<bar> < 2 ^ 53"
  proof -
    have "\<bar>?x\<bar> = of_int \<bar>k\<bar>" by simp
    also have "\<dots> < of_int (2 ^ 53)" using assms by (simp only: of_int_less_iff)
    finally show ?thesis by simp
  qed
  have e0: "0 \<le> ?e"
  proof -
    have "0 \<le> log 2 \<bar>?x\<bar>" using one by simp
    then show ?thesis by simp
  qed
  have e52: "?e \<le> 52"
  proof -
    have "log 2 \<bar>?x\<bar> < 53" using lt one by (simp add: log_less_iff powr_numeral)
    then show ?thesis by (simp add: floor_le_iff)
  qed
  define j where "j = nat (52 - ?e)"
  have ue: "ulp_exponent ?x = - int j"
    using e0 e52 by (simp add: ulp_exponent_def j_def)
  have u: "(2::real) powr of_int (ulp_exponent ?x) = 1 / 2 ^ j"
    by (simp add: ue powr_minus powr_realpow divide_inverse)
  have q: "?x / (1 / 2 ^ j) = of_int (k * 2 ^ j)" by simp
  have r: "(1 / 2 ^ j) * of_int (round_half_even (?x / (1 / 2 ^ j))) = ?x"
    unfolding q round_half_even_of_int by simp
  have big: "(2::real) ^ 53 < 2 ^ 1024" by simp
  show ?thesis
    using False lt big
    unfolding to_double_def u Let_def r
    by (auto simp: abs_less_iff)
qed

lemma to_double_error:
  assumes "0 < x" "x < 2 ^ 44"
  shows "\<exists>r. to_double x = Finite r \<and> \<bar>r - x\<bar> \<le> 1 / 1024"
proof -
  let ?e = "max \<lfloor>log 2 \<bar>x\<bar>\<rfloor> (- 1022)"
  let ?u = "2 powr of_int (ulp_exponent x) :: real"
  let ?r = "?u * of_int (round_half_even (x / ?u))"
  have "log 2 x < 44" using assms by (simp add: log_less_iff powr_numeral)
  then have "\<lfloor>log 2 \<bar>x\<bar>\<rfloor> \<le> 43" using assms(1) by (simp add: floor_le_iff)
  then have ue: "ulp_exponent x \<le> - 9" by (simp add: ulp_exponent_def)
  have upos: "0 < ?u" by simp
  have "?u \<le> 2 powr of_int (- 9)"
    using ue by (intro powr_mono) simp_all
  also have "\<dots> = 1 / 512" by (simp add: powr_minus powr_numeral inverse_eq_divide)
  finally have ule: "?u \<le> 1 / 512" .
  have "\<bar>?r - x\<bar> = ?u * \<bar>of_int (round_half_even (x / ?u)) - x / ?u\<bar>"
  proof -
    have "?r - x = ?u * (of_int (round_half_even (x / ?u)) - x / ?u)"
      using upos by (simp add: algebra_simps)
    then show ?thesis using upos by (simp add: abs_mult)
  qed
  also have "\<dots> \<le> ?u * (1 / 2)"
    using round_half_even_error [of "x / ?u"] upos by (intro mult_left_mono) simp_all
  also have "\<dots> \<le> 1 / 1024" using ule by simp
  finally have err: "\<bar>?r - x\<bar> \<le> 1 / 1024" .
  have "?r < 2 ^ 44 + 1" using err assms(2) by linarith
  moreover have "(2::real) ^ 44 + 1 < 2 ^ 1024" by simp
  ultimately have up: "?r < 2 ^ 1024" by linarith
  have lo: "- (2 ^ 1024) < ?r"
  proof -
    have "- 1 < ?r" using err assms(1) by linarith
    moreover have "- ((2::real) ^ 1024) < - 1" by simp
    ultimately show ?thesis by linarith
  qed
  have "to_double x = Finite ?r"
    using assms(1) up lo by (simp add: to_double_def Let_def)
  then show ?thesis using err by blast
qed


lemma Math_pow_2_nat:
  assumes "(2::nat) ^ n < 2 ^ 53"
  shows "Math_pow_2 (of_nat n) = Finite (2 ^ n)"
proof -
  have "\<bar>(2::int) ^ n\<bar> < 2 ^ 53"
  proof -
    have "int ((2::nat) ^ n) < int (2 ^ 53)" using assms by (simp only: of_nat_less_iff)
    then show ?thesis by simp
  qed
  then have "to_double (of_int (2 ^ n)) = Finite (of_int (2 ^ n))"
    by (rule to_double_of_int)
  then show ?thesis
    by (simp add: Math_pow_2_def powr_realpow)
qed

lemma to_double_of_nat:
  assumes "(p::nat) < 2 ^ 53"
  shows "to_double (of_nat p) = Finite (of_nat p)"
proof -
  have "int p < int (2 ^ 53)" using assms by (simp only: of_nat_less_iff)
  then have "\<bar>int p\<bar> < 2 ^ 53" by simp
  then have "to_double (of_int (int p)) = Finite (of_int (int p))"
    by (rule to_double_of_int)
  then show ?thesis by simp
qed

lemma ceil_of_rounded_quotient:
  fixes p :: nat
  assumes "p < 2 ^ 53"
  shows "Math_ceil (to_double (of_nat p / 1000)) = Finite (of_int \<lceil>of_nat p / (1000::real)\<rceil>)"
proof (cases "p mod 1000 = 0")
  case True
  then obtain d where d: "p = 1000 * d" by (auto simp: mod_eq_0_iff_dvd)
  have "d < 2 ^ 53" using assms d by simp
  then have "to_double (of_nat d) = Finite (of_nat d)" by (rule to_double_of_nat)
  then show ?thesis by (simp add: d)
next
  case False
  define d s where "d = p div 1000" and "s = p mod 1000"
  have s: "1 \<le> s" "s \<le> 999" using False by (simp_all add: s_def)
  have p: "p = 1000 * d + s" by (simp add: d_def s_def)
  let ?q = "of_nat p / (1000::real)"
  have q: "?q = of_nat d + of_nat s / 1000" by (simp add: p)
  have slo: "(1::real) \<le> of_nat s" using s(1) by simp
  have shi: "of_nat s \<le> (999::real)" using s(2) by simp
  have qpos: "0 < ?q" using slo by (simp add: q add_pos_nonneg)
  have "of_nat p < (2::real) ^ 53"
  proof -
    have "(of_nat p :: real) < of_nat (2 ^ 53)" using assms by (simp only: of_nat_less_iff)
    then show ?thesis by simp
  qed
  then have qlt: "?q < 2 ^ 44" by simp
  obtain r where r: "to_double ?q = Finite r" "\<bar>r - ?q\<bar> \<le> 1 / 1024"
    using to_double_error [OF qpos qlt] by blast
  have lo: "of_nat d < r" using r(2) slo unfolding q by linarith
  have hi: "r \<le> of_nat d + 1" using r(2) shi unfolding q by linarith
  have cr: "\<lceil>r\<rceil> = int d + 1" using lo hi by (simp add: ceiling_eq_iff)
  have cq: "\<lceil>?q\<rceil> = int d + 1"
    using slo shi unfolding q by (simp add: ceiling_eq_iff) 
  show ?thesis by (simp add: r(1) cr cq)
qed

lemma delay_exact:
  fixes m n :: nat
  assumes "1 \<le> m" "m * 2 ^ n < 2 ^ 53"
  shows "Math_ceil (js_div_1000 (js_mult_finite (of_nat m) (Math_pow_2 (of_nat n)))) =
           Finite (of_int \<lceil>of_nat m * 2 ^ n / (1000::real)\<rceil>)"
proof -
  have "(2::nat) ^ n \<le> m * 2 ^ n" using assms(1) by simp
  then have pw: "(2::nat) ^ n < 2 ^ 53" using assms(2) by linarith
  have prod: "to_double (of_nat (m * 2 ^ n)) = Finite (of_nat (m * 2 ^ n))"
    using assms(2) by (rule to_double_of_nat)
  have "js_mult_finite (of_nat m) (Math_pow_2 (of_nat n)) = Finite (of_nat (m * 2 ^ n))"
    using prod by (simp add: Math_pow_2_nat [OF pw])
  then show ?thesis
    using ceil_of_rounded_quotient [OF assms(2)] by simp
qed

lemma round_half_even_nearest:
  assumes "of_int z - 1 / 2 < y" "y < of_int z + 1 / 2"
  shows "round_half_even y = z"
proof (cases "of_int z \<le> y")
  case True
  then have "\<lfloor>y\<rfloor> = z" using assms(2) by (simp add: floor_eq_iff)
  then show ?thesis using assms(2) by (simp add: round_half_even_def Let_def)
next
  case False
  then have "\<lfloor>y\<rfloor> = z - 1" using assms(1) by (simp add: floor_eq_iff)
  then show ?thesis using assms(1) by (simp add: round_half_even_def Let_def)
qed

lemma to_double_normal:
  fixes k z :: int
  assumes "2 powr of_int k \<le> \<bar>x\<bar>" "\<bar>x\<bar> < 2 powr of_int (k + 1)" "- 1022 \<le> k"
    and "of_int z - 1 / 2 < x / 2 powr of_int (k - 52)"
    and "x / 2 powr of_int (k - 52) < of_int z + 1 / 2"
  shows "to_double x =
           (if 2 ^ 1024 \<le> (2::real) powr of_int (k - 52) * of_int z then PosInfinity
            else if (2::real) powr of_int (k - 52) * of_int z \<le> - (2 ^ 1024) then NegInfinity
            else Finite (2 powr of_int (k - 52) * of_int z))"
proof -
  have u: "ulp_exponent x = k - 52"
    using floor_log2_eq [OF assms(1,2)] assms(3) by (simp add: ulp_exponent_def)
  have nz: "x \<noteq> 0"
    using assms(1) powr_gt_zero [of 2 "of_int k"] by auto
  have r: "round_half_even (x / 2 powr of_int (k - 52)) = z"
    using assms(4,5) by (rule round_half_even_nearest)
  show ?thesis
    using nz unfolding to_double_def Let_def u r by simp
qed

lemma to_double_underflow:
  assumes "0 < x" "x < 2 powr (- 1075)"
  shows "to_double x = Finite 0"
proof -
  have "(2::real) powr (- 1075) < 2 powr (- 1022)" by (intro powr_less_mono) simp_all
  then have lt: "x < 2 powr (- 1022)" using assms(2) by linarith
  have "log 2 \<bar>x\<bar> < - 1022" using assms(1) lt by (simp add: log_less_iff)
  then have "\<lfloor>log 2 \<bar>x\<bar>\<rfloor> < - 1022" by (simp add: floor_less_iff)
  then have u: "ulp_exponent x = - 1074" by (simp add: ulp_exponent_def)
  have "x / 2 powr (- 1074) < 2 powr (- 1075) / 2 powr (- 1074)"
    using assms(2) by (intro divide_strict_right_mono) simp_all
  also have "\<dots> = 2 powr (- 1)" by (simp flip: powr_diff)
  also have "\<dots> = 1 / 2" by (simp add: powr_minus)
  finally have hi: "x / 2 powr (- 1074) < 1 / 2" .
  have lo: "0 < x / 2 powr (- 1074)" using assms(1) by simp
  have "round_half_even (x / 2 powr (- 1074)) = 0"
    using lo hi by (intro round_half_even_nearest) simp_all
  then show ?thesis
    using assms(1) by (simp add: to_double_def u)
qed

lemma Math_pow_2_60: "Math_pow_2 60 = Finite (2 ^ 60)"
proof -
  have "to_double (2 ^ 60) = Finite (2 ^ 60)"
    by (subst to_double_normal [where k = 60 and z = "2 ^ 52"]) simp_all
  then show ?thesis by (simp add: Math_pow_2_def)
qed

lemma product_at_60: "to_double (285 * 2 ^ 60) = Finite (285 * 2 ^ 60)"
  by (subst to_double_normal [where k = 68 and z = "285 * 2 ^ 44"]) simp_all

lemma quotient_at_60: "to_double (285 * 2 ^ 60 / 1000) = Finite 328582628812951360"
  by (subst to_double_normal [where k = 58 and z = 5134103575202365]) simp_all

lemma Math_pow_2_minus_1100: "Math_pow_2 (- 1100) = Finite 0"
proof -
  have "(2::real) powr (- 1100) < 2 powr (- 1075)" by (intro powr_less_mono) simp_all
  then show ?thesis
    unfolding Math_pow_2_def by (intro to_double_underflow) simp_all
qed

lemma Math_pow_2_1100: "Math_pow_2 1100 = PosInfinity"
proof -
  have "to_double (2 ^ 1100) = PosInfinity"
    by (subst to_double_normal [where k = 1100 and z = "2 ^ 52"]) simp_all
  then show ?thesis by (simp add: Math_pow_2_def)
qed

section \<open>The derived retry bound\<close>

lemma backoff_ratio_bounds:
  "2 ^ 21 \<le> MAX_BACKOFF_MS / MIN_BACKOFF_MS" "MAX_BACKOFF_MS / MIN_BACKOFF_MS < 2 ^ 22"
  by (simp_all add: MAX_BACKOFF_MS_def MIN_BACKOFF_MS_def)

lemma MAX_RETRIES_value: "MAX_RETRIES = 21"
proof -
  let ?q = "MAX_BACKOFF_MS / MIN_BACKOFF_MS"
  have pos: "0 < ?q" using backoff_ratio_bounds(1) by (simp add: MAX_BACKOFF_MS_def MIN_BACKOFF_MS_def)
  have "(2::real) powr 21 \<le> ?q" using backoff_ratio_bounds(1) by (simp add: powr_numeral)
  then have lo: "21 \<le> log 2 ?q" using pos by (simp add: le_log_iff)
  have "?q < (2::real) powr 22" using backoff_ratio_bounds(2) by (simp add: powr_numeral)
  then have hi: "log 2 ?q < 22" using pos by (simp add: log_less_iff)
  have "\<lfloor>log 2 ?q\<rfloor> = 21" using lo hi by (simp add: floor_eq_iff)
  then show ?thesis by (simp add: MAX_RETRIES_def)
qed

lemma default_delay_cases:
  "getDelaySecForRetries_default n =
     (if n \<le> MAX_RETRIES
      then Some (Math_ceil (js_div_1000 (js_mult_finite MIN_BACKOFF_MS (Math_pow_2 n))))
      else None)"
  by (simp add: getDelaySecForRetries_default_def getDelaySecForRetries_def option_filter_def)

lemma default_delay_exact:
  fixes n :: nat
  assumes "n \<le> 21"
  shows "getDelaySecForRetries_default (of_nat n) =
           Some (Finite (of_int \<lceil>285 * 2 ^ n / (1000::real)\<rceil>))"
proof -
  have "(2::nat) ^ n \<le> 2 ^ 21" using assms by (intro power_increasing) simp_all
  then have "285 * (2::nat) ^ n < 2 ^ 53" by simp
  then have "Math_ceil (js_div_1000 (js_mult_finite (of_nat 285) (Math_pow_2 (of_nat n)))) =
      Finite (of_int \<lceil>of_nat 285 * 2 ^ n / (1000::real)\<rceil>)"
    by (intro delay_exact) simp_all
  then show ?thesis
    using assms by (simp add: default_delay_cases MAX_RETRIES_value MIN_BACKOFF_MS_def)
qed

lemma delay_at_max: "getDelaySecForRetries_default MAX_RETRIES = Some (Finite 597689)"
proof -
  have "\<lceil>(285 * 2 ^ 21 / 1000 :: real)\<rceil> = 597689"
    by (simp add: ceiling_eq_iff)
  then show ?thesis
    using default_delay_exact [of 21] by (simp add: MAX_RETRIES_value)
qed

section \<open>Properties of the delay policy\<close>

text \<open>
  C1, as stated: for every integer \<open>retries \<le> maxRetries\<close> the function returns
  \<open>Some (ceil (minBackoff * 2^retries / 1000))\<close>. The function computes in doubles, and
  the seconds it returns are not always that ceiling: at \<open>retries = 60\<close>,
  \<open>maxRetries = 100\<close>, \<open>minBackoff = 285\<close> the quotient is rounded to a multiple of 64 and
  the result is 328582628812951360, where the ceiling is 328582628812951389; at
  \<open>retries = -1100\<close> the power of 2 underflows to zero and the result is 0, where the
  ceiling is 1; at \<open>retries = 1100\<close>, \<open>maxRetries = 2000\<close> the power overflows and the
  result is infinite.
\<close>

theorem getDelaySecForRetries_exact_ceil_counterexample:
  "getDelaySecForRetries 60 100 285 = Some (Finite 328582628812951360) \<and>
   \<lceil>285 * 2 powr 60 / 1000 :: real\<rceil> = 328582628812951389 \<and>
   getDelaySecForRetries (- 1100) 21 285 = Some (Finite 0) \<and>
   \<lceil>285 * 2 powr (- 1100) / 1000 :: real\<rceil> = 1 \<and>
   getDelaySecForRetries 1100 2000 285 = Some PosInfinity"
proof -
  have "js_div_1000 (js_mult_finite 285 (Math_pow_2 60)) = Finite 328582628812951360"
    unfolding Math_pow_2_60 js_mult_finite.simps product_at_60 js_div_1000.simps by (rule quotient_at_60)
  then have "Math_ceil (js_div_1000 (js_mult_finite 285 (Math_pow_2 60))) =
      Finite 328582628812951360"
    by simp
  then have a: "getDelaySecForRetries 60 100 285 = Some (Finite 328582628812951360)"
    by (simp add: getDelaySecForRetries_def option_filter_def)
  have b: "\<lceil>285 * 2 powr 60 / 1000 :: real\<rceil> = 328582628812951389"
    by (simp add: ceiling_eq_iff)
  have c: "getDelaySecForRetries (- 1100) 21 285 = Some (Finite 0)"
    by (simp add: getDelaySecForRetries_def option_filter_def Math_pow_2_minus_1100 to_double_def)
  have "(2::real) powr (- 1100) \<le> 2 powr 0" by (intro powr_mono) simp_all
  then have "285 * 2 powr (- 1100) / 1000 \<le> (1::real)" by simp
  moreover have "0 < 285 * 2 powr (- 1100) / (1000::real)" by simp
  ultimately have d: "\<lceil>285 * 2 powr (- 1100) / 1000 :: real\<rceil> = 1"
    by (simp add: ceiling_eq_iff)
  have e: "getDelaySecForRetries 1100 2000 285 = Some PosInfinity"
    by (simp add: getDelaySecForRetries_def option_filter_def Math_pow_2_1100)
  show ?thesis using a b c d e by simp
qed

text \<open>
  C1, amended: for every integer \<open>retries > maxRetries\<close> the function returns \<open>None\<close>, and
  for every integer \<open>retries \<le> maxRetries\<close> it returns \<open>Some\<close> of the seconds that
  \<open>Math.ceil((minBackoff * Math.pow(2, retries)) / 1000)\<close> gives in double arithmetic.
  These seconds are \<open>ceil (minBackoff * 2^retries / 1000)\<close> exactly whenever \<open>retries\<close> is
  a natural number, \<open>minBackoff\<close> a positive integer and \<open>minBackoff * 2^retries < 2^53\<close>,
  as for the defaults with \<open>retries\<close> from 0 to 21. The function is a HOL function of its
  three arguments: it has no state and no effect.
\<close>

theorem getDelaySecForRetries_some_or_none_exact_below_2_53:
  fixes retries :: int and m n :: nat
  shows "(of_int retries > maxRetries \<longrightarrow>
            getDelaySecForRetries (of_int retries) maxRetries minBackoff = None) \<and>
         (of_int retries \<le> maxRetries \<longrightarrow>
            getDelaySecForRetries (of_int retries) maxRetries minBackoff =
              Some (Math_ceil (js_div_1000
                      (js_mult_finite minBackoff (Math_pow_2 (of_int retries)))))) \<and>
         (1 \<le> m \<and> m * 2 ^ n < 2 ^ 53 \<and> of_nat n \<le> maxRetries \<longrightarrow>
            getDelaySecForRetries (of_nat n) maxRetries (of_nat m) =
              Some (Finite (of_int \<lceil>of_nat m * 2 ^ n / (1000::real)\<rceil>)))"
proof (intro conjI impI)
  assume "maxRetries < of_int retries"
  then show "getDelaySecForRetries (of_int retries) maxRetries minBackoff = None"
    by (simp add: getDelaySecForRetries_def option_filter_def)
next
  assume "of_int retries \<le> maxRetries"
  then show "getDelaySecForRetries (of_int retries) maxRetries minBackoff =
      Some (Math_ceil (js_div_1000 (js_mult_finite minBackoff (Math_pow_2 (of_int retries)))))"
    by (simp add: getDelaySecForRetries_def option_filter_def)
next
  assume h: "1 \<le> m \<and> m * 2 ^ n < 2 ^ 53 \<and> of_nat n \<le> maxRetries"
  then have "Math_ceil (js_div_1000 (js_mult_finite (of_nat m) (Math_pow_2 (of_nat n)))) =
      Finite (of_int \<lceil>of_nat m * 2 ^ n / (1000::real)\<rceil>)"
    by (intro delay_exact) simp_all
  then show "getDelaySecForRetries (of_nat n) maxRetries (of_nat m) =
      Some (Finite (of_int \<lceil>of_nat m * 2 ^ n / (1000::real)\<rceil>))"
    using h by (simp add: getDelaySecForRetries_def option_filter_def)
qed

theorem getDelaySecForRetries_some_or_none_exact_below_2_53_witness:
  "getDelaySecForRetries 22 21 285 = None \<and>
   getDelaySecForRetries 1 21 285 = Some (Finite 1) \<and>
   getDelaySecForRetries 3 21 285 = Some (Finite 3)"
proof -
  have a: "getDelaySecForRetries 22 21 285 = None"
    using getDelaySecForRetries_some_or_none_exact_below_2_53 [of 21 22 285 1 1] by simp
  have b: "getDelaySecForRetries 1 21 285 = Some (Finite 1)"
    using getDelaySecForRetries_some_or_none_exact_below_2_53 [of 21 1 285 285 1]
    by (auto simp: ceiling_eq_iff)
  have c: "getDelaySecForRetries 3 21 285 = Some (Finite 3)"
    using getDelaySecForRetries_some_or_none_exact_below_2_53 [of 21 3 285 285 3]
    by (auto simp: ceiling_eq_iff)
  show ?thesis using a b c by simp
qed

text \<open>
  C5. With the default bounds (\<open>MIN_BACKOFF_MS = 285\<close>, \<open>MAX_BACKOFF_MS = 604800000\<close>),
  for every delivery count from 1 to \<open>MAX_RETRIES\<close> the delay \<open>v\<close> returned is finite and
  lies between \<open>MIN_BACKOFF_MS * 2^deliveryCount / 1000\<close> and \<open>MAX_BACKOFF_MS / 1000\<close>
  rounded up, and for a delivery count above \<open>MAX_RETRIES\<close> nothing is returned.
\<close>

theorem default_delay_within_bounds:
  fixes deliveryCount :: int
  shows "(1 \<le> deliveryCount \<and> of_int deliveryCount \<le> MAX_RETRIES \<longrightarrow>
           (\<exists>v. getDelaySecForRetries_default (of_int deliveryCount) = Some (Finite v) \<and>
                MIN_BACKOFF_MS * 2 ^ nat deliveryCount / 1000 \<le> v \<and>
                v \<le> of_int \<lceil>MAX_BACKOFF_MS / 1000\<rceil>)) \<and>
         (of_int deliveryCount > MAX_RETRIES \<longrightarrow>
            getDelaySecForRetries_default (of_int deliveryCount) = None)"
proof (intro conjI impI)
  assume h: "1 \<le> deliveryCount \<and> real_of_int deliveryCount \<le> MAX_RETRIES"
  define n where "n = nat deliveryCount"
  let ?x = "285 * 2 ^ n / (1000::real)"
  have dc: "(of_int deliveryCount :: real) = of_nat n"
    using h by (simp add: n_def)
  have n21: "n \<le> 21"
    using h unfolding MAX_RETRIES_value n_def by linarith
  then have "(2::real) ^ n \<le> 2 ^ 21"
    by (intro power_increasing) simp_all
  then have "?x \<le> 604800"
    by simp
  then have up: "\<lceil>?x\<rceil> \<le> 604800"
    by (simp add: ceiling_le_iff)
  have cap: "\<lceil>MAX_BACKOFF_MS / 1000\<rceil> = 604800"
    by (simp add: MAX_BACKOFF_MS_def)
  have "getDelaySecForRetries_default (of_int deliveryCount) = Some (Finite (of_int \<lceil>?x\<rceil>))"
    unfolding dc by (rule default_delay_exact [OF n21])
  moreover have "MIN_BACKOFF_MS * 2 ^ nat deliveryCount / 1000 \<le> of_int \<lceil>?x\<rceil>"
    using le_of_int_ceiling [of ?x] by (simp add: MIN_BACKOFF_MS_def n_def)
  moreover have "real_of_int \<lceil>?x\<rceil> \<le> of_int \<lceil>MAX_BACKOFF_MS / 1000\<rceil>"
    using up unfolding cap by linarith
  ultimately show "\<exists>v. getDelaySecForRetries_default (of_int deliveryCount) = Some (Finite v) \<and>
      MIN_BACKOFF_MS * 2 ^ nat deliveryCount / 1000 \<le> v \<and>
      v \<le> of_int \<lceil>MAX_BACKOFF_MS / 1000\<rceil>"
    by blast
next
  assume "MAX_RETRIES < real_of_int deliveryCount"
  then show "getDelaySecForRetries_default (of_int deliveryCount) = None"
    by (simp add: default_delay_cases)
qed

theorem default_delay_within_bounds_witness:
  "(\<exists>v. getDelaySecForRetries_default 1 = Some (Finite v) \<and>
        MIN_BACKOFF_MS * 2 ^ 1 / 1000 \<le> v \<and>
        v \<le> of_int \<lceil>MAX_BACKOFF_MS / 1000\<rceil>) \<and>
   getDelaySecForRetries_default 22 = None"
  using default_delay_within_bounds [of 1] default_delay_within_bounds [of 22]
  by (simp add: MAX_RETRIES_value)

text \<open>
  C6. \<open>MAX_RETRIES\<close> is \<open>floor (log2 (MAX_BACKOFF_MS / MIN_BACKOFF_MS))\<close> with
  \<open>MIN_BACKOFF_MS = 285\<close> and \<open>MAX_BACKOFF_MS = 7 * 24 * 3600 * 1000 = 604800000\<close>; the
  derivation gives the constant 21, and the delay of the last retry,
  \<open>getDelaySecForRetries(MAX_RETRIES)\<close>, is 597689 seconds, which does not exceed
  \<open>MAX_BACKOFF_MS / 1000\<close>.
\<close>

theorem MAX_RETRIES_is_21_and_last_delay_bounded:
  "MIN_BACKOFF_MS = 285 \<and>
   MAX_BACKOFF_MS = 7 * 24 * 3600 * 1000 \<and>
   MAX_BACKOFF_MS = 604800000 \<and>
   MAX_RETRIES = of_int \<lfloor>log 2 (MAX_BACKOFF_MS / MIN_BACKOFF_MS)\<rfloor> \<and>
   MAX_RETRIES = 21 \<and>
   getDelaySecForRetries_default MAX_RETRIES = Some (Finite 597689) \<and>
   (597689 :: number) \<le> MAX_BACKOFF_MS / 1000"
  using delay_at_max MAX_RETRIES_value
  by (simp add: MIN_BACKOFF_MS_def MAX_BACKOFF_MS_def MAX_RETRIES_def)

section \<open>Unfolding the two functions\<close>

declare handleQueueProcessingFailure.simps [simp del]

lemma isTransientError_TransientError:
  "isTransientError (toRuntimeError (OfRuntimeError (TransientError m)))"
  by (simp add: isTransientError_def TransientError_def)

lemma classification_of_constructors:
  "isTransientError (TransientError m)" "\<not> isTransientError (PermanentError m)"
  by (simp_all add: isTransientError_def TransientError_def PermanentError_def)

lemma message_of_constructors:
  "message (TransientError m) = m" "message (PermanentError m) = m"
  by (simp_all add: TransientError_def PermanentError_def)

lemma updateMessageVisibilityTimeout_invalid:
  assumes "QueueMessage_decode b = Inl errors"
  shows "updateMessageVisibilityTimeout qs qn b =
           (Rejected (Error ''INVALID_QUEUE_MESSAGE_IN_BINDINGS''),
            [winston_error [Str ''Unable to decode queue message from bindings: '', Report errors]])"
  using assms by (simp add: updateMessageVisibilityTimeout_def)

lemma updateMessageVisibilityTimeout_valid_fst:
  assumes "QueueMessage_decode b = Inr qm"
  shows "fst (updateMessageVisibilityTimeout qs qn b) = Resolved (dequeueCount qm \<le> MAX_RETRIES)"
  using assms by (simp add: updateMessageVisibilityTimeout_def default_delay_cases Let_def)

lemma updateMessageVisibilityTimeout_calls:
  assumes "QueueMessage_decode b = Inr qm"
  shows "filter is_Call_updateMessage (snd (updateMessageVisibilityTimeout qs qn b)) =
           (case getDelaySecForRetries_default (dequeueCount qm) of
              Some d \<Rightarrow> [Call_updateMessage qn (id' qm) (popReceipt qm) d]
            | None \<Rightarrow> [])"
  using assms
  by (simp add: updateMessageVisibilityTimeout_def Let_def split: option.splits)

lemma updateMessageVisibilityTimeout_no_other:
  "filter is_Enter (snd (updateMessageVisibilityTimeout qs qn b)) = []"
  "filter is_Call_onTransientError (snd (updateMessageVisibilityTimeout qs qn b)) = []"
  "filter is_Call_onPermanentError (snd (updateMessageVisibilityTimeout qs qn b)) = []"
  by (simp_all add: updateMessageVisibilityTimeout_def Let_def split: sum.splits option.splits)

lemma updateMessageVisibilityTimeout_at_most_one_call:
  "length (filter is_Call_updateMessage (snd (updateMessageVisibilityTimeout qs qn b))) \<le> 1"
  by (simp add: updateMessageVisibilityTimeout_def Let_def split: sum.splits option.splits)

lemma handle_transient_invalid:
  assumes "isTransientError (toRuntimeError error)" "QueueMessage_decode b = Inl errors"
  shows "handleQueueProcessingFailure qs b qn onT onP error =
           (Rejected (Error ''INVALID_QUEUE_MESSAGE_IN_BINDINGS''),
            [Enter_handleQueueProcessingFailure error,
             winston_warn [Str ''Transient error|'', Str qn, Str ''|'',
                           Str (message (toRuntimeError error))],
             winston_error [Str ''Unable to decode queue message from bindings: '',
                            Report errors]])"
  using assms
  by (subst handleQueueProcessingFailure.simps)
     (simp add: updateMessageVisibilityTimeout_invalid)

lemma handle_transient_valid_fst:
  assumes "isTransientError (toRuntimeError error)" "QueueMessage_decode b = Inr qm"
  shows "fst (handleQueueProcessingFailure qs b qn onT onP error) =
           (if dequeueCount qm \<le> MAX_RETRIES
            then Rejected (Error (''Retry|'' @ qn @ ''|'' @ message (toRuntimeError error)))
            else Resolved ())"
proof -
  obtain t1 where u: "updateMessageVisibilityTimeout qs qn b =
      (Resolved (dequeueCount qm \<le> MAX_RETRIES), t1)"
    using updateMessageVisibilityTimeout_valid_fst [OF assms(2), of qs qn]
    by (cases "updateMessageVisibilityTimeout qs qn b") simp
  show ?thesis
    using assms(1)
    by (subst handleQueueProcessingFailure.simps) (simp add: u Let_def)
qed

lemma handle_transient_fst_callback_independent:
  assumes "isTransientError (toRuntimeError error)"
  shows "fst (handleQueueProcessingFailure qs b qn onT onP error) =
         fst (handleQueueProcessingFailure qs b qn onT' onP' error)"
  using assms
  by (subst handleQueueProcessingFailure.simps, subst (2) handleQueueProcessingFailure.simps)
     (simp add: Let_def split: prod.splits promise.splits)

lemma handle_transient_trace_counts:
  assumes "isTransientError (toRuntimeError error)"
  shows "filter is_Enter (snd (handleQueueProcessingFailure qs b qn onT onP error)) =
           [Enter_handleQueueProcessingFailure error]"
    and "filter is_Call_onPermanentError
           (snd (handleQueueProcessingFailure qs b qn onT onP error)) = []"
    and "length (filter is_Call_updateMessage
           (snd (handleQueueProcessingFailure qs b qn onT onP error))) \<le> 1"
proof -
  obtain r t1 where u: "updateMessageVisibilityTimeout qs qn b = (r, t1)"
    by (cases "updateMessageVisibilityTimeout qs qn b")
  have t1: "filter is_Enter t1 = []" "filter is_Call_onPermanentError t1 = []"
    "length (filter is_Call_updateMessage t1) \<le> 1"
    using updateMessageVisibilityTimeout_no_other [of qs qn b]
      updateMessageVisibilityTimeout_at_most_one_call [of qs qn b]
    by (simp_all add: u)
  show "filter is_Enter (snd (handleQueueProcessingFailure qs b qn onT onP error)) =
           [Enter_handleQueueProcessingFailure error]"
    using assms t1(1)
    by (subst handleQueueProcessingFailure.simps)
       (simp add: u Let_def split: promise.splits sum.splits)
  show "filter is_Call_onPermanentError
           (snd (handleQueueProcessingFailure qs b qn onT onP error)) = []"
    using assms t1(2)
    by (subst handleQueueProcessingFailure.simps)
       (simp add: u Let_def split: promise.splits sum.splits)
  show "length (filter is_Call_updateMessage
           (snd (handleQueueProcessingFailure qs b qn onT onP error))) \<le> 1"
    using assms t1(3)
    by (subst handleQueueProcessingFailure.simps)
       (simp add: u Let_def split: promise.splits sum.splits)
qed


lemma handle_permanent_escalates:
  assumes "\<not> isTransientError (toRuntimeError error)"
    and "onP (toRuntimeError error) = Resolved (Inl e2)"
  shows "handleQueueProcessingFailure qs b qn onT onP error =
           (fst (handleQueueProcessingFailure qs b qn onT onP
                   (OfRuntimeError (TransientError (message e2)))),
            [Enter_handleQueueProcessingFailure error,
             winston_error [Str ''Permanent error|'', Str qn, Str ''|'',
                            Str (message (toRuntimeError error))],
             Call_onPermanentError (toRuntimeError error)] @
            snd (handleQueueProcessingFailure qs b qn onT onP
                   (OfRuntimeError (TransientError (message e2)))))"
  using assms
  by (subst handleQueueProcessingFailure.simps)
     (simp add: Let_def split: prod.splits)

lemma handle_permanent_settled:
  assumes "\<not> isTransientError (toRuntimeError error)"
    and "onP (toRuntimeError error) = Resolved (Inr u)"
  shows "handleQueueProcessingFailure qs b qn onT onP error =
           (Resolved (),
            [Enter_handleQueueProcessingFailure error,
             winston_error [Str ''Permanent error|'', Str qn, Str ''|'',
                            Str (message (toRuntimeError error))],
             Call_onPermanentError (toRuntimeError error)])"
  using assms
  by (subst handleQueueProcessingFailure.simps) (simp add: Let_def)

lemma handle_permanent_rejected:
  assumes "\<not> isTransientError (toRuntimeError error)"
    and "onP (toRuntimeError error) = Rejected reason"
  shows "handleQueueProcessingFailure qs b qn onT onP error =
           (Rejected reason,
            [Enter_handleQueueProcessingFailure error,
             winston_error [Str ''Permanent error|'', Str qn, Str ''|'',
                            Str (message (toRuntimeError error))],
             Call_onPermanentError (toRuntimeError error)])"
  using assms
  by (subst handleQueueProcessingFailure.simps) (simp add: Let_def)

lemma decode_example_bindings:
  "QueueMessage_decode (example_bindings dc) = Inr (example_message dc)"
  by (simp add: QueueMessage_decode_def example_bindings_def example_message_def
      number_prop_def string_prop_def partial_string_prop_def)

lemma example_message_sel:
  "dequeueCount (example_message dc) = dc" "id' (example_message dc) = ''m1''"
  "popReceipt (example_message dc) = ''r1''"
  by (simp_all add: example_message_def)

lemma handle_transient_at_most_one_callback:
  assumes "isTransientError (toRuntimeError error)"
  shows "length (filter is_Call_onTransientError
           (snd (handleQueueProcessingFailure qs b qn onT onP error))) \<le> 1"
proof -
  obtain r t1 where u: "updateMessageVisibilityTimeout qs qn b = (r, t1)"
    by (cases "updateMessageVisibilityTimeout qs qn b")
  have t1: "filter is_Call_onTransientError t1 = []"
    using updateMessageVisibilityTimeout_no_other(2) [of qs qn b] by (simp add: u)
  show ?thesis
    using assms t1
    by (subst handleQueueProcessingFailure.simps)
       (simp add: u Let_def split: promise.splits sum.splits)
qed

lemma handle_enter_count:
  "occurrences is_Enter (snd (handleQueueProcessingFailure qs b qn onT onP error)) =
     (if isTransientError (toRuntimeError error) then 1
      else case onP (toRuntimeError error) of
             Resolved (Inl e2) \<Rightarrow> 2
           | Resolved (Inr u) \<Rightarrow> 1
           | Rejected reason \<Rightarrow> 1)"
proof (cases "isTransientError (toRuntimeError error)")
  case True
  then show ?thesis
    by (simp add: occurrences_def handle_transient_trace_counts(1))
next
  case False
  show ?thesis
  proof (cases "onP (toRuntimeError error)")
    case (Rejected reason)
    then show ?thesis
      using False by (simp add: occurrences_def handle_permanent_rejected)
  next
    case (Resolved x)
    show ?thesis
    proof (cases x)
      case (Inl e2)
      have "onP (toRuntimeError error) = Resolved (Inl e2)"
        using Resolved Inl by simp
      then show ?thesis
        using False
        by (simp add: occurrences_def handle_permanent_escalates
            handle_transient_trace_counts(1) classification_of_constructors(1))
    next
      case (Inr u)
      have "onP (toRuntimeError error) = Resolved (Inr u)"
        using Resolved Inr by simp
      then show ?thesis
        using False by (simp add: occurrences_def handle_permanent_settled)
    qed
  qed
qed

lemma handle_onPermanentError_count:
  "occurrences is_Call_onPermanentError
     (snd (handleQueueProcessingFailure qs b qn onT onP error)) =
     (if isTransientError (toRuntimeError error) then 0 else 1)"
proof (cases "isTransientError (toRuntimeError error)")
  case True
  then show ?thesis
    by (simp add: occurrences_def handle_transient_trace_counts(2))
next
  case False
  show ?thesis
  proof (cases "onP (toRuntimeError error)")
    case (Rejected reason)
    then show ?thesis
      using False by (simp add: occurrences_def handle_permanent_rejected)
  next
    case (Resolved x)
    show ?thesis
    proof (cases x)
      case (Inl e2)
      have "onP (toRuntimeError error) = Resolved (Inl e2)"
        using Resolved Inl by simp
      then show ?thesis
        using False
        by (simp add: occurrences_def handle_permanent_escalates
            handle_transient_trace_counts(2) classification_of_constructors(1))
    next
      case (Inr u)
      have "onP (toRuntimeError error) = Resolved (Inr u)"
        using Resolved Inr by simp
      then show ?thesis
        using False by (simp add: occurrences_def handle_permanent_settled)
    qed
  qed
qed

lemma handle_transport_and_hook_counts:
  "occurrences is_Call_updateMessage
     (snd (handleQueueProcessingFailure qs b qn onT onP error)) \<le> 1 \<and>
   occurrences is_Call_onTransientError
     (snd (handleQueueProcessingFailure qs b qn onT onP error)) \<le> 1"
proof (cases "isTransientError (toRuntimeError error)")
  case True
  then show ?thesis
    using handle_transient_trace_counts(3) [of error qs b qn onT onP]
      handle_transient_at_most_one_callback [of error qs b qn onT onP]
    by (simp add: occurrences_def)
next
  case False
  show ?thesis
  proof (cases "onP (toRuntimeError error)")
    case (Rejected reason)
    then show ?thesis
      using False by (simp add: occurrences_def handle_permanent_rejected)
  next
    case (Resolved x)
    show ?thesis
    proof (cases x)
      case (Inl e2)
      have "onP (toRuntimeError error) = Resolved (Inl e2)"
        using Resolved Inl by simp
      then show ?thesis
        using False
          handle_transient_trace_counts(3)
            [of "OfRuntimeError (TransientError (message e2))" qs b qn onT onP]
          handle_transient_at_most_one_callback
            [of "OfRuntimeError (TransientError (message e2))" qs b qn onT onP]
        by (simp add: occurrences_def handle_permanent_escalates
            classification_of_constructors(1))
    next
      case (Inr u)
      have "onP (toRuntimeError error) = Resolved (Inr u)"
        using Resolved Inr by simp
      then show ?thesis
        using False by (simp add: occurrences_def handle_permanent_settled)
    qed
  qed
qed

lemma missing_required_key_invalid:
  assumes "b k = None" "k = ''dequeueCount'' \<or> k = ''id'' \<or> k = ''popReceipt''"
  shows "QueueMessage_decode b = Inl (validation_errors b)"
  using assms
  by (auto simp: QueueMessage_decode_def number_prop_def string_prop_def)

lemma scenario_delays:
  "getDelaySecForRetries_default 1 = Some (Finite 1)" "getDelaySecForRetries_default 22 = None"
proof -
  show "getDelaySecForRetries_default 1 = Some (Finite 1)"
    using default_delay_exact [of 1] by (simp add: ceiling_eq_iff)
  show "getDelaySecForRetries_default 22 = None"
    by (simp add: default_delay_cases MAX_RETRIES_value)
qed

lemma decode_bindings_without_popReceipt:
  "QueueMessage_decode bindings_without_popReceipt = Inl [''popReceipt'']"
  by (simp add: QueueMessage_decode_def validation_errors_def bindings_without_popReceipt_def
      number_prop_def string_prop_def partial_string_prop_def)

section \<open>The visibility extender\<close>

text \<open>
  C4. With bindings that are a valid queue message, \<open>updateMessageVisibilityTimeout\<close>
  resolves \<open>true\<close> whenever the delay policy yields a delay for the message's
  \<open>dequeueCount\<close>, whatever the transport reports: the outcome is that of a transport
  without error, \<open>updateMessage\<close> is called once with that delay, and an error the
  transport reports is logged. It resolves \<open>false\<close> exactly when the delay policy
  yields nothing, that is when \<open>dequeueCount > MAX_RETRIES\<close>, and then \<open>updateMessage\<close>
  is not called.
\<close>

theorem updateMessageVisibilityTimeout_true_unless_exhausted:
  "QueueMessage_decode b = Inr qm \<longrightarrow>
     (\<forall>d. getDelaySecForRetries_default (dequeueCount qm) = Some d \<longrightarrow>
        fst (updateMessageVisibilityTimeout qs qn b) = Resolved True \<and>
        fst (updateMessageVisibilityTimeout qs qn b) =
          fst (updateMessageVisibilityTimeout transport_ok qn b) \<and>
        filter is_Call_updateMessage (snd (updateMessageVisibilityTimeout qs qn b)) =
          [Call_updateMessage qn (id' qm) (popReceipt qm) d] \<and>
        (\<forall>m. qs qn (id' qm) (popReceipt qm) d = Some m \<longrightarrow>
           winston_error [Str ''updateMessageVisibilityTimeout|Error|'', Str m]
             \<in> set (snd (updateMessageVisibilityTimeout qs qn b)))) \<and>
     (fst (updateMessageVisibilityTimeout qs qn b) = Resolved False \<longleftrightarrow>
        getDelaySecForRetries_default (dequeueCount qm) = None) \<and>
     (getDelaySecForRetries_default (dequeueCount qm) = None \<longleftrightarrow>
        dequeueCount qm > MAX_RETRIES) \<and>
     (dequeueCount qm > MAX_RETRIES \<longrightarrow>
        filter is_Call_updateMessage (snd (updateMessageVisibilityTimeout qs qn b)) = [])"
proof (intro impI conjI allI)
  assume v: "QueueMessage_decode b = Inr qm"
  show "(fst (updateMessageVisibilityTimeout qs qn b) = Resolved False) =
        (getDelaySecForRetries_default (dequeueCount qm) = None)"
    by (simp add: updateMessageVisibilityTimeout_valid_fst [OF v] default_delay_cases)
  show "(getDelaySecForRetries_default (dequeueCount qm) = None) =
        (MAX_RETRIES < dequeueCount qm)"
    by (auto simp: default_delay_cases)
  {
    assume "MAX_RETRIES < dequeueCount qm"
    then show "filter is_Call_updateMessage (snd (updateMessageVisibilityTimeout qs qn b)) = []"
      by (simp add: updateMessageVisibilityTimeout_calls [OF v] default_delay_cases)
  }
  fix d
  assume s: "getDelaySecForRetries_default (dequeueCount qm) = Some d"
  then have le: "dequeueCount qm \<le> MAX_RETRIES"
    by (simp add: default_delay_cases split: if_splits)
  show "fst (updateMessageVisibilityTimeout qs qn b) = Resolved True"
    using le by (simp add: updateMessageVisibilityTimeout_valid_fst [OF v])
  show "fst (updateMessageVisibilityTimeout qs qn b) =
        fst (updateMessageVisibilityTimeout transport_ok qn b)"
    by (simp add: updateMessageVisibilityTimeout_valid_fst [OF v])
  show "filter is_Call_updateMessage (snd (updateMessageVisibilityTimeout qs qn b)) =
        [Call_updateMessage qn (id' qm) (popReceipt qm) d]"
    by (simp add: updateMessageVisibilityTimeout_calls [OF v] s)
  fix m
  assume "qs qn (id' qm) (popReceipt qm) d = Some m"
  then show "winston_error [Str ''updateMessageVisibilityTimeout|Error|'', Str m]
      \<in> set (snd (updateMessageVisibilityTimeout qs qn b))"
    using v s by (simp add: updateMessageVisibilityTimeout_def Let_def)
qed

theorem updateMessageVisibilityTimeout_true_unless_exhausted_witness:
  "fst (updateMessageVisibilityTimeout transport_failing ''q'' (example_bindings 1)) =
     Resolved True \<and>
   filter is_Call_updateMessage
     (snd (updateMessageVisibilityTimeout transport_failing ''q'' (example_bindings 1))) =
     [Call_updateMessage ''q'' ''m1'' ''r1'' (Finite 1)] \<and>
   winston_error [Str ''updateMessageVisibilityTimeout|Error|'', Str ''service unavailable'']
     \<in> set (snd (updateMessageVisibilityTimeout transport_failing ''q'' (example_bindings 1))) \<and>
   fst (updateMessageVisibilityTimeout transport_failing ''q'' (example_bindings 22)) =
     Resolved False \<and>
   filter is_Call_updateMessage
     (snd (updateMessageVisibilityTimeout transport_failing ''q'' (example_bindings 22))) = []"
  using
    updateMessageVisibilityTimeout_true_unless_exhausted
      [of "example_bindings 1" "example_message 1" transport_failing "''q''"]
    updateMessageVisibilityTimeout_true_unless_exhausted
      [of "example_bindings 22" "example_message 22" transport_failing "''q''"]
  by (simp add: decode_example_bindings example_message_sel scenario_delays
      MAX_RETRIES_value transport_failing_def)

text \<open>
  C9. Bindings that fail the \<open>QueueMessage\<close> codec, as they do when \<open>dequeueCount\<close>,
  \<open>id\<close> or \<open>popReceipt\<close> is missing, make \<open>updateMessageVisibilityTimeout\<close> reject
  with \<open>Error('INVALID_QUEUE_MESSAGE_IN_BINDINGS')\<close>, without a call of the transport;
  \<open>handleQueueProcessingFailure\<close> on an error classified transient then rejects with
  that error and \<open>onTransientError\<close> is never invoked.
\<close>

theorem invalid_bindings_reject:
  "(b k = None \<and> (k = ''dequeueCount'' \<or> k = ''id'' \<or> k = ''popReceipt'') \<longrightarrow>
      QueueMessage_decode b = Inl (validation_errors b)) \<and>
   (QueueMessage_decode b = Inl errors \<longrightarrow>
      fst (updateMessageVisibilityTimeout qs qn b) =
        Rejected (Error ''INVALID_QUEUE_MESSAGE_IN_BINDINGS'') \<and>
      filter is_Call_updateMessage (snd (updateMessageVisibilityTimeout qs qn b)) = [] \<and>
      (isTransientError (toRuntimeError error) \<longrightarrow>
         fst (handleQueueProcessingFailure qs b qn onT onP error) =
           Rejected (Error ''INVALID_QUEUE_MESSAGE_IN_BINDINGS'') \<and>
         filter is_Call_onTransientError
           (snd (handleQueueProcessingFailure qs b qn onT onP error)) = []))"
  using missing_required_key_invalid [of b k]
  by (auto simp: updateMessageVisibilityTimeout_invalid handle_transient_invalid)

theorem invalid_bindings_reject_witness:
  "bindings_without_popReceipt ''popReceipt'' = None \<and>
   QueueMessage_decode bindings_without_popReceipt = Inl [''popReceipt''] \<and>
   fst (updateMessageVisibilityTimeout transport_ok ''q'' bindings_without_popReceipt) =
     Rejected (Error ''INVALID_QUEUE_MESSAGE_IN_BINDINGS'') \<and>
   fst (handleQueueProcessingFailure transport_ok bindings_without_popReceipt ''q''
          callback_ok callback_ok (OfRuntimeError (TransientError ''timeout''))) =
     Rejected (Error ''INVALID_QUEUE_MESSAGE_IN_BINDINGS'') \<and>
   filter is_Call_onTransientError
     (snd (handleQueueProcessingFailure transport_ok bindings_without_popReceipt ''q''
             callback_ok callback_ok (OfRuntimeError (TransientError ''timeout'')))) = []"
proof -
  have n: "bindings_without_popReceipt ''popReceipt'' = None"
    by (simp add: bindings_without_popReceipt_def)
  show ?thesis
    using n
      invalid_bindings_reject [of bindings_without_popReceipt "''popReceipt''"
        "[''popReceipt'']" transport_ok "''q''" "OfRuntimeError (TransientError ''timeout'')"
        callback_ok callback_ok]
    by (simp add: decode_bindings_without_popReceipt classification_of_constructors)
qed
section \<open>The failure orchestrator\<close>

text \<open>
  C2, as stated: \<open>handleQueueProcessingFailure\<close> rejects exactly when a retry is
  requested. It also rejects when none is: on a transient error with bindings that lack
  \<open>popReceipt\<close> it rejects with \<open>Error('INVALID_QUEUE_MESSAGE_IN_BINDINGS')\<close> and
  \<open>updateMessage\<close> is never called; on a permanent error whose \<open>onPermanentError\<close>
  promise rejects it rejects with that reason, here at a \<open>dequeueCount\<close> of 22, above
  \<open>MAX_RETRIES\<close>, again without a call of \<open>updateMessage\<close>.
\<close>

theorem handle_rejects_without_retry_counterexample:
  "fst (handleQueueProcessingFailure transport_ok bindings_without_popReceipt ''q''
          callback_ok callback_ok (OfRuntimeError (TransientError ''timeout''))) =
     Rejected (Error ''INVALID_QUEUE_MESSAGE_IN_BINDINGS'') \<and>
   filter is_Call_updateMessage
     (snd (handleQueueProcessingFailure transport_ok bindings_without_popReceipt ''q''
             callback_ok callback_ok (OfRuntimeError (TransientError ''timeout'')))) = [] \<and>
   fst (handleQueueProcessingFailure transport_ok (example_bindings 22) ''q''
          callback_ok callback_rejecting (OfRuntimeError (PermanentError ''bad payload''))) =
     Rejected (Error ''hook crashed'') \<and>
   filter is_Call_updateMessage
     (snd (handleQueueProcessingFailure transport_ok (example_bindings 22) ''q''
             callback_ok callback_rejecting
             (OfRuntimeError (PermanentError ''bad payload'')))) = []"
proof -
  have t: "isTransientError (toRuntimeError (OfRuntimeError (TransientError ''timeout'')))"
    by (simp add: classification_of_constructors)
  have p: "\<not> isTransientError (toRuntimeError (OfRuntimeError (PermanentError ''bad payload'')))"
    by (simp add: classification_of_constructors)
  have r: "callback_rejecting (toRuntimeError (OfRuntimeError (PermanentError ''bad payload''))) =
      Rejected (Error ''hook crashed'')"
    by (simp add: callback_rejecting_def)
  show ?thesis
    by (simp add: handle_transient_invalid [OF t decode_bindings_without_popReceipt]
        handle_permanent_rejected [where onP = callback_rejecting, OF p r])
qed

text \<open>
  C2, amended: \<open>handleQueueProcessingFailure\<close> resolves normally exactly when processing
  stops: on an error classified transient with valid bindings and
  \<open>dequeueCount > MAX_RETRIES\<close>; on an error not classified transient whose
  \<open>onPermanentError\<close> resolves to a \<open>Right\<close>; and on one whose \<open>onPermanentError\<close>
  resolves to a \<open>Left\<close>, with valid bindings and \<open>dequeueCount > MAX_RETRIES\<close>. In every
  other case it rejects: with the \<open>Retry|...\<close> error when a retry is requested (an error
  classified transient, or one not so classified whose \<open>onPermanentError\<close> resolves to a
  \<open>Left\<close>, with valid bindings and \<open>dequeueCount \<le> MAX_RETRIES\<close>), with
  \<open>Error('INVALID_QUEUE_MESSAGE_IN_BINDINGS')\<close> when on one of these two paths the
  bindings are not valid, and with the reason of \<open>onPermanentError\<close> when that promise
  rejects.
\<close>

theorem handle_outcome_by_case:
  "fst (handleQueueProcessingFailure qs b qn onT onP error) =
     (if isTransientError (toRuntimeError error) then
        (case QueueMessage_decode b of
           Inl errors \<Rightarrow> Rejected (Error ''INVALID_QUEUE_MESSAGE_IN_BINDINGS'')
         | Inr qm \<Rightarrow>
             if dequeueCount qm \<le> MAX_RETRIES
             then Rejected (Error (''Retry|'' @ qn @ ''|'' @ message (toRuntimeError error)))
             else Resolved ())
      else
        (case onP (toRuntimeError error) of
           Rejected reason \<Rightarrow> Rejected reason
         | Resolved (Inr u) \<Rightarrow> Resolved ()
         | Resolved (Inl e2) \<Rightarrow>
             (case QueueMessage_decode b of
                Inl errors \<Rightarrow> Rejected (Error ''INVALID_QUEUE_MESSAGE_IN_BINDINGS'')
              | Inr qm \<Rightarrow>
                  if dequeueCount qm \<le> MAX_RETRIES
                  then Rejected (Error (''Retry|'' @ qn @ ''|'' @ message e2))
                  else Resolved ()))) \<and>
   (fst (handleQueueProcessingFailure qs b qn onT onP error) = Resolved () \<longleftrightarrow>
      (isTransientError (toRuntimeError error) \<and>
       (\<exists>qm. QueueMessage_decode b = Inr qm \<and> dequeueCount qm > MAX_RETRIES)) \<or>
      (\<not> isTransientError (toRuntimeError error) \<and>
       onP (toRuntimeError error) = Resolved (Inr ())) \<or>
      (\<not> isTransientError (toRuntimeError error) \<and>
       (\<exists>e2. onP (toRuntimeError error) = Resolved (Inl e2)) \<and>
       (\<exists>qm. QueueMessage_decode b = Inr qm \<and> dequeueCount qm > MAX_RETRIES)))"
proof -
  have transient: "fst (handleQueueProcessingFailure qs b qn onT onP e) =
      (case QueueMessage_decode b of
         Inl errors \<Rightarrow> Rejected (Error ''INVALID_QUEUE_MESSAGE_IN_BINDINGS'')
       | Inr qm \<Rightarrow>
           if dequeueCount qm \<le> MAX_RETRIES
           then Rejected (Error (''Retry|'' @ qn @ ''|'' @ message (toRuntimeError e)))
           else Resolved ())"
    if "isTransientError (toRuntimeError e)" for e
    using that
    by (cases "QueueMessage_decode b")
       (simp_all add: handle_transient_invalid handle_transient_valid_fst)
  have table: "fst (handleQueueProcessingFailure qs b qn onT onP error) =
     (if isTransientError (toRuntimeError error) then
        (case QueueMessage_decode b of
           Inl errors \<Rightarrow> Rejected (Error ''INVALID_QUEUE_MESSAGE_IN_BINDINGS'')
         | Inr qm \<Rightarrow>
             if dequeueCount qm \<le> MAX_RETRIES
             then Rejected (Error (''Retry|'' @ qn @ ''|'' @ message (toRuntimeError error)))
             else Resolved ())
      else
        (case onP (toRuntimeError error) of
           Rejected reason \<Rightarrow> Rejected reason
         | Resolved (Inr u) \<Rightarrow> Resolved ()
         | Resolved (Inl e2) \<Rightarrow>
             (case QueueMessage_decode b of
                Inl errors \<Rightarrow> Rejected (Error ''INVALID_QUEUE_MESSAGE_IN_BINDINGS'')
              | Inr qm \<Rightarrow>
                  if dequeueCount qm \<le> MAX_RETRIES
                  then Rejected (Error (''Retry|'' @ qn @ ''|'' @ message e2))
                  else Resolved ())))"
  proof (cases "isTransientError (toRuntimeError error)")
    case True
    then show ?thesis by (simp add: transient)
  next
    case False
    show ?thesis
    proof (cases "onP (toRuntimeError error)")
      case (Rejected reason)
      then show ?thesis
        using False by (simp add: handle_permanent_rejected)
    next
      case (Resolved x)
      show ?thesis
      proof (cases x)
        case (Inl e2)
        have l: "onP (toRuntimeError error) = Resolved (Inl e2)"
          using Resolved Inl by simp
        have m: "message (toRuntimeError (OfRuntimeError (TransientError (message e2)))) =
            message e2"
          by (simp add: message_of_constructors)
        have "fst (handleQueueProcessingFailure qs b qn onT onP error) =
            fst (handleQueueProcessingFailure qs b qn onT onP
                   (OfRuntimeError (TransientError (message e2))))"
          using False l by (simp add: handle_permanent_escalates)
        also have "\<dots> =
            (case QueueMessage_decode b of
               Inl errors \<Rightarrow> Rejected (Error ''INVALID_QUEUE_MESSAGE_IN_BINDINGS'')
             | Inr qm \<Rightarrow>
                 if dequeueCount qm \<le> MAX_RETRIES
                 then Rejected (Error (''Retry|'' @ qn @ ''|'' @ message e2))
                 else Resolved ())"
          using transient [OF isTransientError_TransientError, of "message e2"]
          unfolding m .
        finally show ?thesis
          using False l by simp
      next
        case (Inr u)
        have "onP (toRuntimeError error) = Resolved (Inr u)"
          using Resolved Inr by simp
        then show ?thesis
          using False by (simp add: handle_permanent_settled)
      qed
    qed
  qed
  show ?thesis
    by (rule conjI [OF table]) (auto simp: table split: sum.splits promise.splits)
qed

theorem handle_outcome_by_case_witness:
  "fst (handleQueueProcessingFailure transport_ok (example_bindings 1) ''q''
          callback_ok callback_ok (OfRuntimeError (TransientError ''timeout''))) =
     Rejected (Error ''Retry|q|timeout'') \<and>
   fst (handleQueueProcessingFailure transport_ok (example_bindings 22) ''q''
          callback_ok callback_ok (OfRuntimeError (TransientError ''timeout''))) =
     Resolved () \<and>
   fst (handleQueueProcessingFailure transport_ok (example_bindings 1) ''q''
          callback_ok callback_ok (OfRuntimeError (PermanentError ''bad payload''))) =
     Resolved () \<and>
   fst (handleQueueProcessingFailure transport_ok (example_bindings 1) ''q''
          callback_ok callback_left (OfRuntimeError (PermanentError ''bad payload''))) =
     Rejected (Error ''Retry|q|cleanup failed'')"
proof -
  have a: "fst (handleQueueProcessingFailure transport_ok (example_bindings 1) ''q''
          callback_ok callback_ok (OfRuntimeError (TransientError ''timeout''))) =
     Rejected (Error ''Retry|q|timeout'')"
    using handle_outcome_by_case
      [of transport_ok "example_bindings 1" "''q''" callback_ok callback_ok
          "OfRuntimeError (TransientError ''timeout'')"]
    by (simp add: decode_example_bindings example_message_sel classification_of_constructors
        message_of_constructors MAX_RETRIES_value)
  have b: "fst (handleQueueProcessingFailure transport_ok (example_bindings 22) ''q''
          callback_ok callback_ok (OfRuntimeError (TransientError ''timeout''))) =
     Resolved ()"
    using handle_outcome_by_case
      [of transport_ok "example_bindings 22" "''q''" callback_ok callback_ok
          "OfRuntimeError (TransientError ''timeout'')"]
    by (simp add: decode_example_bindings example_message_sel classification_of_constructors
        MAX_RETRIES_value)
  have c: "fst (handleQueueProcessingFailure transport_ok (example_bindings 1) ''q''
          callback_ok callback_ok (OfRuntimeError (PermanentError ''bad payload''))) =
     Resolved ()"
    using handle_outcome_by_case
      [of transport_ok "example_bindings 1" "''q''" callback_ok callback_ok
          "OfRuntimeError (PermanentError ''bad payload'')"]
    by (simp add: classification_of_constructors callback_ok_def)
  have d: "fst (handleQueueProcessingFailure transport_ok (example_bindings 1) ''q''
          callback_ok callback_left (OfRuntimeError (PermanentError ''bad payload''))) =
     Rejected (Error ''Retry|q|cleanup failed'')"
    using handle_outcome_by_case
      [of transport_ok "example_bindings 1" "''q''" callback_ok callback_left
          "OfRuntimeError (PermanentError ''bad payload'')"]
    by (simp add: decode_example_bindings example_message_sel classification_of_constructors
        message_of_constructors MAX_RETRIES_value callback_left_def)
  show ?thesis using a b c d by simp
qed

text \<open>
  C7. On the transient path a failure of \<open>onTransientError\<close> is logged and swallowed.
  The promise \<open>handleQueueProcessingFailure\<close> returns is the one it returns with a
  callback that succeeds; with valid bindings it is the retry error when
  \<open>dequeueCount \<le> MAX_RETRIES\<close> and a normal resolution otherwise, the callback is
  invoked, a \<open>Left\<close> is logged as a warning and a rejection as an error.
\<close>

theorem onTransientError_failure_swallowed:
  "isTransientError (toRuntimeError error) \<longrightarrow>
     fst (handleQueueProcessingFailure qs b qn onT onP error) =
       fst (handleQueueProcessingFailure qs b qn callback_ok onP error) \<and>
     (QueueMessage_decode b = Inr qm \<longrightarrow>
        fst (handleQueueProcessingFailure qs b qn onT onP error) =
          (if dequeueCount qm \<le> MAX_RETRIES
           then Rejected (Error (''Retry|'' @ qn @ ''|'' @ message (toRuntimeError error)))
           else Resolved ()) \<and>
        Call_onTransientError (toRuntimeError error)
          \<in> set (snd (handleQueueProcessingFailure qs b qn onT onP error)) \<and>
        (\<forall>err. onT (toRuntimeError error) = Resolved (Inl err) \<longrightarrow>
           winston_warn [Str ''Transient error (onTransientError)|'', Str qn, Str ''|'',
                         Str (message err)]
             \<in> set (snd (handleQueueProcessingFailure qs b qn onT onP error))) \<and>
        (\<forall>reason. onT (toRuntimeError error) = Rejected reason \<longrightarrow>
           winston_error [Val reason]
             \<in> set (snd (handleQueueProcessingFailure qs b qn onT onP error))))"
proof (intro impI conjI allI)
  assume t: "isTransientError (toRuntimeError error)"
  show "fst (handleQueueProcessingFailure qs b qn onT onP error) =
        fst (handleQueueProcessingFailure qs b qn callback_ok onP error)"
    by (rule handle_transient_fst_callback_independent [OF t])
  assume v: "QueueMessage_decode b = Inr qm"
  show "fst (handleQueueProcessingFailure qs b qn onT onP error) =
          (if dequeueCount qm \<le> MAX_RETRIES
           then Rejected (Error (''Retry|'' @ qn @ ''|'' @ message (toRuntimeError error)))
           else Resolved ())"
    by (rule handle_transient_valid_fst [OF t v])
  obtain t1 where u: "updateMessageVisibilityTimeout qs qn b =
      (Resolved (dequeueCount qm \<le> MAX_RETRIES), t1)"
    using updateMessageVisibilityTimeout_valid_fst [OF v, of qs qn]
    by (cases "updateMessageVisibilityTimeout qs qn b") simp
  show "Call_onTransientError (toRuntimeError error)
          \<in> set (snd (handleQueueProcessingFailure qs b qn onT onP error))"
    using t by (subst handleQueueProcessingFailure.simps) (simp add: u Let_def)
  {
    fix err
    assume "onT (toRuntimeError error) = Resolved (Inl err)"
    then show "winston_warn [Str ''Transient error (onTransientError)|'', Str qn, Str ''|'',
                         Str (message err)]
             \<in> set (snd (handleQueueProcessingFailure qs b qn onT onP error))"
      using t by (subst handleQueueProcessingFailure.simps) (simp add: u Let_def)
  }
  fix reason
  assume "onT (toRuntimeError error) = Rejected reason"
  then show "winston_error [Val reason]
             \<in> set (snd (handleQueueProcessingFailure qs b qn onT onP error))"
    using t by (subst handleQueueProcessingFailure.simps) (simp add: u Let_def)
qed

theorem onTransientError_failure_swallowed_witness:
  "fst (handleQueueProcessingFailure transport_ok (example_bindings 1) ''q''
          callback_left callback_ok (OfRuntimeError (TransientError ''timeout''))) =
     Rejected (Error ''Retry|q|timeout'') \<and>
   winston_warn [Str ''Transient error (onTransientError)|'', Str ''q'', Str ''|'',
                 Str ''cleanup failed'']
     \<in> set (snd (handleQueueProcessingFailure transport_ok (example_bindings 1) ''q''
                  callback_left callback_ok (OfRuntimeError (TransientError ''timeout'')))) \<and>
   fst (handleQueueProcessingFailure transport_ok (example_bindings 22) ''q''
          callback_rejecting callback_ok (OfRuntimeError (TransientError ''timeout''))) =
     Resolved () \<and>
   winston_error [Val (Error ''hook crashed'')]
     \<in> set (snd (handleQueueProcessingFailure transport_ok (example_bindings 22) ''q''
                  callback_rejecting callback_ok
                  (OfRuntimeError (TransientError ''timeout''))))"
  using
    onTransientError_failure_swallowed
      [of "OfRuntimeError (TransientError ''timeout'')" transport_ok "example_bindings 1"
          "''q''" callback_left callback_ok "example_message 1"]
    onTransientError_failure_swallowed
      [of "OfRuntimeError (TransientError ''timeout'')" transport_ok "example_bindings 22"
          "''q''" callback_rejecting callback_ok "example_message 22"]
  by (auto simp: decode_example_bindings example_message_sel classification_of_constructors
      message_of_constructors MAX_RETRIES_value callback_left_def callback_rejecting_def)



text \<open>
  C10. Every invocation of \<open>handleQueueProcessingFailure\<close> returns after at most one
  call of itself (the function is total: its recursion decreases the measure given with
  its definition). The trace holds at most two entries into the function; on an error
  classified transient it holds exactly one; the error built for the inner call,
  \<open>TransientError(m)\<close>, is classified transient; and there are two entries exactly
  when the error is not classified transient and \<open>onPermanentError\<close> resolves to a
  \<open>Left\<close>.
\<close>

theorem handle_at_most_one_self_call:
  "occurrences is_Enter (snd (handleQueueProcessingFailure qs b qn onT onP error)) \<le> 2 \<and>
   (isTransientError (toRuntimeError error) \<longrightarrow>
      occurrences is_Enter (snd (handleQueueProcessingFailure qs b qn onT onP error)) = 1) \<and>
   isTransientError (toRuntimeError (OfRuntimeError (TransientError m))) \<and>
   (occurrences is_Enter (snd (handleQueueProcessingFailure qs b qn onT onP error)) = 2 \<longleftrightarrow>
      \<not> isTransientError (toRuntimeError error) \<and>
      (\<exists>e2. onP (toRuntimeError error) = Resolved (Inl e2)))"
  by (auto simp: handle_enter_count classification_of_constructors(1)
      split: promise.splits sum.splits)

theorem handle_at_most_one_self_call_witness:
  "occurrences is_Enter
     (snd (handleQueueProcessingFailure transport_ok (example_bindings 1) ''q''
             callback_ok callback_left (OfRuntimeError (TransientError ''timeout'')))) = 1 \<and>
   occurrences is_Enter
     (snd (handleQueueProcessingFailure transport_ok (example_bindings 1) ''q''
             callback_ok callback_left (OfRuntimeError (PermanentError ''bad payload'')))) = 2"
  using
    handle_at_most_one_self_call
      [of transport_ok "example_bindings 1" "''q''" callback_ok callback_left
          "OfRuntimeError (TransientError ''timeout'')" "''timeout''"]
    handle_at_most_one_self_call
      [of transport_ok "example_bindings 1" "''q''" callback_ok callback_left
          "OfRuntimeError (PermanentError ''bad payload'')" "''timeout''"]
  by (auto simp: classification_of_constructors callback_left_def)

text \<open>
  C8, as stated: the escalation from the permanent to the transient path can recurse an
  unbounded number of times within one invocation as long as \<open>onPermanentError\<close> keeps
  failing. It does not: with a cleanup callback that fails on every call, an invocation
  on a permanent error enters the function twice, invokes \<open>onPermanentError\<close> once and
  returns, here with the retry error for \<open>dequeueCount = 1\<close>.
\<close>

theorem escalation_loops_counterexample:
  "occurrences is_Enter
     (snd (handleQueueProcessingFailure transport_ok (example_bindings 1) ''q''
             callback_ok callback_left (OfRuntimeError (PermanentError ''bad payload'')))) = 2 \<and>
   occurrences is_Call_onPermanentError
     (snd (handleQueueProcessingFailure transport_ok (example_bindings 1) ''q''
             callback_ok callback_left (OfRuntimeError (PermanentError ''bad payload'')))) = 1 \<and>
   fst (handleQueueProcessingFailure transport_ok (example_bindings 1) ''q''
          callback_ok callback_left (OfRuntimeError (PermanentError ''bad payload''))) =
     Rejected (Error ''Retry|q|cleanup failed'')"
proof -
  let ?e = "OfRuntimeError (PermanentError ''bad payload'')"
  have p: "\<not> isTransientError (toRuntimeError ?e)"
    by (simp add: isTransientError_def PermanentError_def)
  have l: "callback_left (toRuntimeError ?e) = Resolved (Inl (PermanentError ''cleanup failed''))"
    by (simp add: callback_left_def)
  have m: "message (PermanentError ''cleanup failed'') = ''cleanup failed''"
    by (simp add: PermanentError_def)
  have r: "fst (handleQueueProcessingFailure transport_ok (example_bindings 1) ''q''
                  callback_ok callback_left (OfRuntimeError (TransientError ''cleanup failed''))) =
           Rejected (Error ''Retry|q|cleanup failed'')"
    using handle_transient_valid_fst
        [where error = "OfRuntimeError (TransientError ''cleanup failed'')"
           and b = "example_bindings 1" and qm = "example_message 1" and qs = transport_ok
           and qn = "''q''" and onT = callback_ok and onP = callback_left,
         OF isTransientError_TransientError decode_example_bindings]
    by (simp add: example_message_sel MAX_RETRIES_value TransientError_def)
  have c1: "occurrences is_Enter
      (snd (handleQueueProcessingFailure transport_ok (example_bindings 1) ''q''
              callback_ok callback_left ?e)) = 2"
    using p l by (simp add: handle_enter_count)
  have c2: "occurrences is_Call_onPermanentError
      (snd (handleQueueProcessingFailure transport_ok (example_bindings 1) ''q''
              callback_ok callback_left ?e)) = 1"
    using p by (simp add: handle_onPermanentError_count)
  have c3: "fst (handleQueueProcessingFailure transport_ok (example_bindings 1) ''q''
              callback_ok callback_left ?e) = Rejected (Error ''Retry|q|cleanup failed'')"
    using r
    by (simp add: handle_permanent_escalates [where onP = callback_left and error = ?e, OF p l] m)
  show ?thesis
    using c1 c2 c3 by simp
qed

text \<open>
  C8, amended: within one invocation the escalation is bounded. Whatever the callbacks
  do, \<open>onPermanentError\<close>, \<open>onTransientError\<close> and the transport's \<open>updateMessage\<close>
  are each invoked at most once. When the error is not classified transient and
  \<open>onPermanentError\<close> resolves to a \<open>Left\<close> with error \<open>e2\<close>, the function is entered
  exactly twice, \<open>onPermanentError\<close> is invoked exactly once, and with valid bindings
  the outcome is decided once by the delay policy on the unchanged \<open>dequeueCount\<close>.
\<close>

theorem escalation_reenters_once:
  "occurrences is_Call_onPermanentError
     (snd (handleQueueProcessingFailure qs b qn onT onP error)) \<le> 1 \<and>
   occurrences is_Call_updateMessage
     (snd (handleQueueProcessingFailure qs b qn onT onP error)) \<le> 1 \<and>
   occurrences is_Call_onTransientError
     (snd (handleQueueProcessingFailure qs b qn onT onP error)) \<le> 1 \<and>
   (\<not> isTransientError (toRuntimeError error) \<and>
    onP (toRuntimeError error) = Resolved (Inl e2) \<longrightarrow>
      occurrences is_Enter (snd (handleQueueProcessingFailure qs b qn onT onP error)) = 2 \<and>
      occurrences is_Call_onPermanentError
        (snd (handleQueueProcessingFailure qs b qn onT onP error)) = 1 \<and>
      (QueueMessage_decode b = Inr qm \<longrightarrow>
         fst (handleQueueProcessingFailure qs b qn onT onP error) =
           (if dequeueCount qm \<le> MAX_RETRIES
            then Rejected (Error (''Retry|'' @ qn @ ''|'' @ message e2))
            else Resolved ())))"
proof -
  have "fst (handleQueueProcessingFailure qs b qn onT onP error) =
           (if dequeueCount qm \<le> MAX_RETRIES
            then Rejected (Error (''Retry|'' @ qn @ ''|'' @ message e2))
            else Resolved ())"
    if p: "\<not> isTransientError (toRuntimeError error)"
      and l: "onP (toRuntimeError error) = Resolved (Inl e2)"
      and v: "QueueMessage_decode b = Inr qm"
    using handle_transient_valid_fst
        [where error = "OfRuntimeError (TransientError (message e2))" and qs = qs
           and qn = qn and onT = onT and onP = onP, OF isTransientError_TransientError v]
    by (simp add: handle_permanent_escalates [where onP = onP and error = error, OF p l]
        TransientError_def)
  then show ?thesis
    using handle_transport_and_hook_counts [of qs b qn onT onP error]
    by (simp add: handle_enter_count handle_onPermanentError_count)
qed

theorem escalation_reenters_once_witness:
  "occurrences is_Enter
     (snd (handleQueueProcessingFailure transport_ok (example_bindings 22) ''q''
             callback_ok callback_left (OfRuntimeError (PermanentError ''bad payload'')))) = 2 \<and>
   occurrences is_Call_onPermanentError
     (snd (handleQueueProcessingFailure transport_ok (example_bindings 22) ''q''
             callback_ok callback_left (OfRuntimeError (PermanentError ''bad payload'')))) = 1 \<and>
   fst (handleQueueProcessingFailure transport_ok (example_bindings 22) ''q''
          callback_ok callback_left (OfRuntimeError (PermanentError ''bad payload''))) =
     Resolved ()"
  using escalation_reenters_once
      [of transport_ok "example_bindings 22" "''q''" callback_ok callback_left
          "OfRuntimeError (PermanentError ''bad payload'')" "PermanentError ''cleanup failed''"
          "example_message 22"]
  by (simp add: decode_example_bindings example_message_sel classification_of_constructors
      callback_left_def MAX_RETRIES_value)

end
